theory Spec2Isabelle
  imports Complex_Main "HOL-Library.List_Lexorder" "HOL-Library.Char_ord" "HOL-Library.Multiset"
begin

section \<open>Values exchanged with the outside world\<close>

text \<open>
  The updater talks to two services: the metadata database (over \<open>requests\<close>) and the
  library server (over \<open>plexapi\<close>). What they answer is not decided by the program, so
  both are parameters of the model (the record \<open>world\<close> below). A Python \<open>str\<close> is a
  \<open>string\<close>, one \<open>char\<close> per code point.
\<close>

text \<open>A decoded JSON document, as \<open>response.json()\<close> returns it; \<open>JNull\<close> is \<open>None\<close>.
  A \<open>JObj\<close> lists the items of the \<open>dict\<close> in insertion order, keys distinct.\<close>

datatype json =
    JNull
  | JBool bool
  | JInt int
  | JFloat rat
  | JStr string
  | JArr "json list"
  | JObj "(string \<times> json) list"

text \<open>Python truth value of a decoded document (\<open>not x\<close> is its negation).\<close>

fun truthy :: "json \<Rightarrow> bool" where
  "truthy JNull = False"
| "truthy (JBool b) = b"
| "truthy (JInt n) = (n \<noteq> 0)"
| "truthy (JFloat r) = (r \<noteq> 0)"
| "truthy (JStr s) = (s \<noteq> [])"
| "truthy (JArr xs) = (xs \<noteq> [])"
| "truthy (JObj kvs) = (kvs \<noteq> [])"

text \<open>The exceptions that occur, all subclasses of \<open>Exception\<close>; each carries \<open>str(e)\<close>.
  \<open>RequestException\<close> stands for \<open>requests.RequestException\<close> and its subclasses.\<close>

datatype exn =
    RequestException string
  | TMDBError string
  | PlexError string
  | ConfigError string
  | KeyError string
  | TypeError string
  | AttributeError string
  | ValueError string
  | OtherException string

fun str_exn :: "exn \<Rightarrow> string" where
  "str_exn (RequestException m) = m"
| "str_exn (TMDBError m) = m"
| "str_exn (PlexError m) = m"
| "str_exn (ConfigError m) = m"
| "str_exn (KeyError m) = m"
| "str_exn (TypeError m) = m"
| "str_exn (AttributeError m) = m"
| "str_exn (ValueError m) = m"
| "str_exn (OtherException m) = m"

text \<open>Values of request parameters: the title, the year, or \<open>None\<close>.\<close>

datatype pyval = PNone | PInt int | PStr string

type_synonym params = "(string \<times> pyval) list"
type_synonym kwargs = "(string \<times> string) list"

text \<open>One HTTP request as it leaves \<open>session.get\<close>, and the response it gets:
  its status, the text of the \<open>HTTPError\<close> that \<open>raise_for_status\<close> builds from it, and
  what \<open>response.json()\<close> gives.\<close>

record treq =
  req_url :: string
  req_params :: params
  req_verify :: bool
  req_kwargs :: kwargs

record response =
  status_code :: nat
  http_error_msg :: string
  json_body :: "exn + json"

text \<open>\<open>config.py\<close>: the dataclass \<open>Config\<close>.\<close>

record config =
  plex_url :: string
  plex_token :: string
  tmdb_api_key :: string
  max_workers :: int
  verify_ssl :: bool
  tmdb_base_url :: string

definition Config :: "string \<Rightarrow> string \<Rightarrow> string \<Rightarrow> config" where
  "Config url token key =
     \<lparr>plex_url = url, plex_token = token, tmdb_api_key = key, max_workers = 10,
      verify_ssl = False, tmdb_base_url = ''https://api.themoviedb.org/3''\<rparr>"

text \<open>A \<open>Movie\<close> or \<open>Show\<close> of the library: the attributes the updater reads.
  \<open>item_guids\<close> holds \<open>guid.id\<close> of every entry of \<open>media_item.guids\<close>.\<close>

record media_item =
  item_title :: string
  item_summary :: string
  item_type :: string
  item_year :: "int option"
  item_guids :: "string list"

record library_section =
  section_title :: string
  section_type :: string
  section_items :: "media_item list"

text \<open>
  The outside world. \<open>transport\<close> answers the \<open>n\<close>-th HTTP request of the run,
  \<open>item_edit\<close> the \<open>n\<close>-th \<open>media_item.edit\<close> (\<open>Some e\<close>: it raises \<open>e\<close>),
  \<open>plex_connect\<close> the \<open>n\<close>-th \<open>PlexServer(url, token)\<close>. \<open>pool_schedule\<close> lists the
  choices of the thread pool: which pending task finishes next.
\<close>

record world =
  transport :: "nat \<Rightarrow> treq \<Rightarrow> exn + response"
  item_edit :: "nat \<Rightarrow> media_item \<Rightarrow> json \<Rightarrow> exn option"
  plex_connect :: "nat \<Rightarrow> string option \<Rightarrow> string option \<Rightarrow> exn + library_section list"
  pool_schedule :: "nat list"

text \<open>
  The state of a run: the entries of the \<open>lru_cache\<close> (most recently used first), and
  the calls made so far: HTTP requests, calls of \<open>make_tmdb_request\<close>, summary edits.
\<close>

type_synonym cache_key = "string \<times> params"

record updater_state =
  cache :: "(cache_key \<times> json) list"
  transport_log :: "treq list"
  client_log :: "(string \<times> params \<times> kwargs) list"
  edit_log :: "(string \<times> json) list"

definition init_state :: updater_state where
  "init_state = \<lparr>cache = [], transport_log = [], client_log = [], edit_log = []\<rparr>"

section \<open>The metadata client\<close>

text \<open>\<open>requests\<close> leaves a parameter whose value is \<open>None\<close> out of the query string.\<close>

definition encode_params :: "params \<Rightarrow> params" where
  "encode_params ps = filter (\<lambda>(k, v). v \<noteq> PNone) ps"

definition session_get ::
  "world \<Rightarrow> string \<Rightarrow> params \<Rightarrow> bool \<Rightarrow> kwargs \<Rightarrow> updater_state \<Rightarrow> (exn + response) \<times> updater_state" where
  "session_get w url ps verify kw st =
     (let req = \<lparr>req_url = url, req_params = encode_params ps, req_verify = verify,
                 req_kwargs = kw\<rparr>
      in (transport w (length (transport_log st)) req,
          st\<lparr>transport_log := transport_log st @ [req]\<rparr>))"

text \<open>\<open>response.raise_for_status()\<close>: an \<open>HTTPError\<close> (a \<open>RequestException\<close>) for a
  status from 400 to 599.\<close>

definition raise_for_status :: "response \<Rightarrow> exn option" where
  "raise_for_status r =
     (if 400 \<le> status_code r \<and> status_code r < 600
      then Some (RequestException (http_error_msg r)) else None)"

text \<open>The handler \<open>except requests.RequestException as e: raise TMDBError(...)\<close>.\<close>

fun tmdb_error_of :: "exn \<Rightarrow> exn" where
  "tmdb_error_of (RequestException m) = TMDBError (''TMDB API request failed: '' @ m)"
| "tmdb_error_of e = e"

text \<open>The \<open>try\<close> block that both request paths share: build the URL, \<open>session.get\<close>,
  \<open>raise_for_status\<close>, \<open>response.json()\<close>.\<close>

definition request_json ::
  "config \<Rightarrow> world \<Rightarrow> string \<Rightarrow> params \<Rightarrow> kwargs \<Rightarrow> updater_state \<Rightarrow> (exn + json) \<times> updater_state" where
  "request_json cfg w endpoint ps kw st =
     (let url = tmdb_base_url cfg @ ''/'' @ endpoint in
      case session_get w url ps (verify_ssl cfg) kw st of
        (Inl e, st') \<Rightarrow> (Inl (tmdb_error_of e), st')
      | (Inr r, st') \<Rightarrow>
          (case raise_for_status r of
             Some e \<Rightarrow> (Inl (tmdb_error_of e), st')
           | None \<Rightarrow>
               (case json_body r of
                  Inl e \<Rightarrow> (Inl (tmdb_error_of e), st')
                | Inr v \<Rightarrow> (Inr v, st'))))"

text \<open>\<open>@lru_cache(maxsize=1024)\<close>: a hit moves the entry to the front; a miss runs the
  function and, when it returns, stores the result in front, dropping the least recently
  used entry of a full cache. A call that raises stores nothing.\<close>

definition maxsize :: nat where
  "maxsize = 1024"

definition lru_hit :: "cache_key \<Rightarrow> json \<Rightarrow> (cache_key \<times> json) list \<Rightarrow> (cache_key \<times> json) list" where
  "lru_hit k v c = (k, v) # filter (\<lambda>(k', v'). k' \<noteq> k) c"

definition lru_store :: "cache_key \<Rightarrow> json \<Rightarrow> (cache_key \<times> json) list \<Rightarrow> (cache_key \<times> json) list" where
  "lru_store k v c = take maxsize ((k, v) # c)"

definition make_tmdb_request_cached ::
  "config \<Rightarrow> world \<Rightarrow> string \<Rightarrow> params \<Rightarrow> updater_state \<Rightarrow> (exn + json) \<times> updater_state" where
  "make_tmdb_request_cached cfg w endpoint param_items st =
     (case map_of (cache st) (endpoint, param_items) of
        Some v \<Rightarrow> (Inr v, st\<lparr>cache := lru_hit (endpoint, param_items) v (cache st)\<rparr>)
      | None \<Rightarrow>
          (case request_json cfg w endpoint param_items [] st of
             (Inl e, st') \<Rightarrow> (Inl e, st')
           | (Inr v, st') \<Rightarrow>
               (Inr v, st'\<lparr>cache := lru_store (endpoint, param_items) v (cache st')\<rparr>)))"

text \<open>\<open>make_tmdb_request(endpoint, **kwargs)\<close>; \<open>ps\<close> is \<open>kwargs.pop("params", {})\<close>, a
  dictionary (its keys are distinct), and \<open>kw\<close> what is left of \<open>kwargs\<close>.\<close>

definition make_tmdb_request ::
  "config \<Rightarrow> world \<Rightarrow> string \<Rightarrow> params \<Rightarrow> kwargs \<Rightarrow> updater_state \<Rightarrow> (exn + json) \<times> updater_state" where
  "make_tmdb_request cfg w endpoint ps kw st0 =
     (let st = st0\<lparr>client_log := client_log st0 @ [(endpoint, ps, kw)]\<rparr> in
      if kw \<noteq> [] then request_json cfg w endpoint ps kw st
      else make_tmdb_request_cached cfg w endpoint (sort_key fst ps) st)"

text \<open>
  A call of \<open>make_tmdb_request\<close> is written \<open>(endpoint, params, kwargs)\<close>. It goes through
  the cache when it has no further keyword arguments, under the key \<open>request_key\<close>.
  \<open>make_requests\<close> issues a list of calls one after the other and forgets their
  results.
\<close>

type_synonym client_call = "string \<times> params \<times> kwargs"

fun cacheable :: "client_call \<Rightarrow> bool" where
  "cacheable (endpoint, ps, kw) = (kw = [])"

fun request_key :: "client_call \<Rightarrow> cache_key" where
  "request_key (endpoint, ps, kw) = (endpoint, sort_key fst ps)"

fun make_requests :: "config \<Rightarrow> world \<Rightarrow> client_call list \<Rightarrow> updater_state \<Rightarrow> updater_state" where
  "make_requests cfg w [] st = st"
| "make_requests cfg w ((endpoint, ps, kw) # calls) st =
     make_requests cfg w calls (snd (make_tmdb_request cfg w endpoint ps kw st))"

section \<open>Resolution\<close>

text \<open>\<open>pat in s\<close> and \<open>s.replace(old, new)\<close> on strings.\<close>

fun contains :: "string \<Rightarrow> string \<Rightarrow> bool" where
  "contains pat [] = (pat = [])"
| "contains pat (c # cs) = (take (length pat) (c # cs) = pat \<or> contains pat cs)"

fun str_replace :: "string \<Rightarrow> string \<Rightarrow> string \<Rightarrow> string" where
  "str_replace old new [] = (if old = [] then new else [])"
| "str_replace old new (c # cs) =
     (if old = [] then new @ c # str_replace old new cs
      else if take (length old) (c # cs) = old
           then new @ str_replace old new (drop (length old) (c # cs))
           else c # str_replace old new cs)"

fun first_tmdb_guid :: "string list \<Rightarrow> string option" where
  "first_tmdb_guid [] = None"
| "first_tmdb_guid (g # gs) =
     (if contains ''tmdb'' g then Some (str_replace ''tmdb://'' [] g) else first_tmdb_guid gs)"

definition get_tmdb_id :: "media_item \<Rightarrow> string option" where
  "get_tmdb_id media_item = first_tmdb_guid (item_guids media_item)"

definition media_type_of :: "media_item \<Rightarrow> string" where
  "media_type_of media_item = (if item_type media_item = ''movie'' then ''movie'' else ''tv'')"

text \<open>\<open>response.get("results", [])\<close> and \<open>next(iter(results), None)\<close>.\<close>

fun dict_get_results :: "json \<Rightarrow> exn + json" where
  "dict_get_results (JObj kvs) =
     (case map_of kvs ''results'' of None \<Rightarrow> Inr (JArr []) | Some v \<Rightarrow> Inr v)"
| "dict_get_results v = Inl (AttributeError ''object has no attribute get'')"

fun first_of :: "json \<Rightarrow> exn + json" where
  "first_of (JArr xs) = (case xs of [] \<Rightarrow> Inr JNull | x # _ \<Rightarrow> Inr x)"
| "first_of (JObj kvs) = (case kvs of [] \<Rightarrow> Inr JNull | (k, _) # _ \<Rightarrow> Inr (JStr k))"
| "first_of (JStr s) = (case s of [] \<Rightarrow> Inr JNull | c # _ \<Rightarrow> Inr (JStr [c]))"
| "first_of v = Inl (TypeError ''object is not iterable'')"

text \<open>The dictionary \<open>{"query": media_item.title, "year": getattr(media_item, "year", None)}\<close>.\<close>

definition search_params :: "media_item \<Rightarrow> params" where
  "search_params media_item =
     [(''query'', PStr (item_title media_item)),
      (''year'', case item_year media_item of None \<Rightarrow> PNone | Some y \<Rightarrow> PInt y)]"

definition search_tmdb ::
  "config \<Rightarrow> world \<Rightarrow> media_item \<Rightarrow> updater_state \<Rightarrow> (exn + json) \<times> updater_state" where
  "search_tmdb cfg w media_item st =
     (let media_type = media_type_of media_item;
          ps = search_params media_item
      in case make_tmdb_request cfg w (''search/'' @ media_type) ps [] st of
           (Inl e, st') \<Rightarrow> (Inl e, st')
         | (Inr response, st') \<Rightarrow>
             (if \<not> truthy response then (Inr JNull, st')
              else case dict_get_results response of
                     Inl e \<Rightarrow> (Inl e, st')
                   | Inr results \<Rightarrow> (first_of results, st')))"

definition get_tmdb_data ::
  "config \<Rightarrow> world \<Rightarrow> media_item \<Rightarrow> updater_state \<Rightarrow> (exn + json) \<times> updater_state" where
  "get_tmdb_data cfg w media_item st =
     (case get_tmdb_id media_item of
        None \<Rightarrow> search_tmdb cfg w media_item st
      | Some tmdb_id \<Rightarrow>
          (if tmdb_id = [] then search_tmdb cfg w media_item st
           else make_tmdb_request cfg w (media_type_of media_item @ ''/'' @ tmdb_id) [] [] st))"

section \<open>Reconciliation of one item\<close>

text \<open>\<open>tmdb_data["overview"]\<close> on a decoded document.\<close>

fun subscript_overview :: "json \<Rightarrow> exn + json" where
  "subscript_overview (JObj kvs) =
     (case map_of kvs ''overview'' of
        None \<Rightarrow> Inl (KeyError (CHR 0x27 # ''overview'' @ [CHR 0x27]))
      | Some v \<Rightarrow> Inr v)"
| "subscript_overview (JArr xs) = Inl (TypeError ''list indices must be integers or slices, not str'')"
| "subscript_overview (JStr s) = Inl (TypeError ''string indices must be integers, not str'')"
| "subscript_overview v = Inl (TypeError ''object is not subscriptable'')"

text \<open>\<open>media_item.edit(**{"summary.value": v})\<close>.\<close>

definition edit_summary ::
  "world \<Rightarrow> media_item \<Rightarrow> json \<Rightarrow> updater_state \<Rightarrow> exn option \<times> updater_state" where
  "edit_summary w media_item v st =
     (item_edit w (length (edit_log st)) media_item v,
      st\<lparr>edit_log := edit_log st @ [(item_title media_item, v)]\<rparr>)"

type_synonym update_result = "string \<times> string"

text \<open>The \<open>try\<close> block of \<open>_update_item\<close>, and \<open>_update_item\<close> with its handler.\<close>

definition update_item_try ::
  "config \<Rightarrow> world \<Rightarrow> media_item \<Rightarrow> updater_state \<Rightarrow> (exn + update_result) \<times> updater_state" where
  "update_item_try cfg w media_item st =
     (case get_tmdb_data cfg w media_item st of
        (Inl e, st') \<Rightarrow> (Inl e, st')
      | (Inr tmdb_data, st') \<Rightarrow>
          (if \<not> truthy tmdb_data then (Inr (item_title media_item, ''No TMDB match found''), st')
           else case subscript_overview tmdb_data of
                  Inl e \<Rightarrow> (Inl e, st')
                | Inr overview \<Rightarrow>
                    (if JStr (item_summary media_item) \<noteq> overview then
                       (case edit_summary w media_item overview st' of
                          (Some e, st'') \<Rightarrow> (Inl e, st'')
                        | (None, st'') \<Rightarrow> (Inr (item_title media_item, ''Updated''), st''))
                     else (Inr (item_title media_item, ''No change needed''), st'))))"

definition update_item ::
  "config \<Rightarrow> world \<Rightarrow> media_item \<Rightarrow> updater_state \<Rightarrow> (exn + update_result) \<times> updater_state" where
  "update_item cfg w media_item st =
     (case update_item_try cfg w media_item st of
        (Inl e, st') \<Rightarrow> (Inr (item_title media_item, ''Error: '' @ str_exn e), st')
      | (Inr r, st') \<Rightarrow> (Inr r, st'))"

section \<open>Sections, the library, the process\<close>

text \<open>
  \<open>_process_section\<close>. The pool runs one \<open>_update_item\<close> per item; \<open>as_completed\<close> hands
  the futures over in the order they finish. The model runs the tasks one at a time in the
  order the schedule picks (a choice \<open>c\<close> picks pending task \<open>c mod n\<close>; an exhausted
  schedule picks the first). A future whose \<open>result()\<close> raises is logged and adds nothing.
\<close>

function run_pool ::
  "config \<Rightarrow> world \<Rightarrow> nat list \<Rightarrow> media_item list \<Rightarrow> updater_state
     \<Rightarrow> update_result list \<times> updater_state \<times> nat list" where
  "run_pool cfg w sched pending st =
     (if pending = [] then ([], st, sched)
      else
        (let i = (case sched of [] \<Rightarrow> 0 | c # _ \<Rightarrow> c mod length pending);
             done_item = update_item cfg w (pending ! i) st;
             rest = run_pool cfg w (tl sched) (take i pending @ drop (Suc i) pending) (snd done_item)
         in (case fst done_item of
               Inl e \<Rightarrow> (fst rest, snd rest)
             | Inr result \<Rightarrow> (result # fst rest, snd rest))))"
  by pat_completeness auto
termination
proof (relation "measure (\<lambda>(cfg, w, sched, pending, st). length pending)")
  fix cfg :: config and w :: world and sched :: "nat list" and pending :: "media_item list"
    and st :: updater_state and i :: nat and done_item :: "(exn + update_result) \<times> updater_state"
  assume nonempty: "pending \<noteq> []"
    and i: "i = (case sched of [] \<Rightarrow> 0 | c # x \<Rightarrow> c mod length pending)"
  from nonempty have "0 < length pending" by simp
  then have "i < length pending" using i by (cases sched) simp_all
  then show "((cfg, w, tl sched, take i pending @ drop (Suc i) pending, snd done_item),
              (cfg, w, sched, pending, st))
             \<in> measure (\<lambda>(cfg, w, sched, pending, st). length pending)"
    by simp
qed simp

definition process_section ::
  "config \<Rightarrow> world \<Rightarrow> nat list \<Rightarrow> library_section \<Rightarrow> updater_state
     \<Rightarrow> (exn + update_result list) \<times> updater_state \<times> nat list" where
  "process_section cfg w sched section st =
     (let media_items = section_items section in
      if max_workers cfg \<le> 0
      then (Inl (ValueError ''max_workers must be greater than 0''), st, sched)
      else (let r = run_pool cfg w sched media_items st in (Inr (fst r), snd r)))"

fun update_library ::
  "config \<Rightarrow> world \<Rightarrow> nat list \<Rightarrow> library_section list \<Rightarrow> updater_state
     \<Rightarrow> exn option \<times> updater_state" where
  "update_library cfg w sched [] st = (None, st)"
| "update_library cfg w sched (section # sections) st =
     (if section_type section \<noteq> ''movie'' \<and> section_type section \<noteq> ''show''
      then update_library cfg w sched sections st
      else case process_section cfg w sched section st of
             (Inl e, st', sched') \<Rightarrow> (Some e, st')
           | (Inr results, st', sched') \<Rightarrow> update_library cfg w sched' sections st')"

text \<open>\<open>_validate_config\<close>, \<open>_init_plex\<close> and \<open>__init__\<close>.\<close>

fun join :: "string \<Rightarrow> string list \<Rightarrow> string" where
  "join sep [] = []"
| "join sep [x] = x"
| "join sep (x # y # ys) = x @ sep @ join sep (y # ys)"

definition config_attr :: "config \<Rightarrow> string \<Rightarrow> string" where
  "config_attr cfg field =
     (if field = ''plex_url'' then plex_url cfg
      else if field = ''plex_token'' then plex_token cfg
      else tmdb_api_key cfg)"

definition validate_config :: "config \<Rightarrow> exn option" where
  "validate_config cfg =
     (let required = [''plex_url'', ''plex_token'', ''tmdb_api_key''];
          missing = filter (\<lambda>field. config_attr cfg field = []) required
      in if missing \<noteq> []
         then Some (ConfigError (''Missing required configuration: '' @ join '', '' missing))
         else None)"

definition init_plex :: "config \<Rightarrow> world \<Rightarrow> nat \<Rightarrow> exn + library_section list" where
  "init_plex cfg w n =
     (case plex_connect w n (Some (plex_url cfg)) (Some (plex_token cfg)) of
        Inl e \<Rightarrow> Inl (PlexError (''Failed to connect to Plex: '' @ str_exn e))
      | Inr server \<Rightarrow> Inr server)"

definition PlexSummaryUpdater :: "config \<Rightarrow> world \<Rightarrow> nat \<Rightarrow> exn + library_section list" where
  "PlexSummaryUpdater cfg w n =
     (case validate_config cfg of
        Some e \<Rightarrow> Inl e
      | None \<Rightarrow> init_plex cfg w n)"

text \<open>
  How the process ends: normally, by \<open>SystemExit(message)\<close> (the message goes to
  \<open>stderr\<close>, the status is 1), or by an exception nobody caught (a traceback, status 1).
\<close>

datatype exit_status = Exit0 | SystemExit string | Uncaught exn

fun exit_code :: "exit_status \<Rightarrow> nat" where
  "exit_code Exit0 = 0"
| "exit_code (SystemExit m) = 1"
| "exit_code (Uncaught e) = 1"

definition getenv_default :: "(string \<Rightarrow> string option) \<Rightarrow> string \<Rightarrow> string \<Rightarrow> string" where
  "getenv_default env name d = (case env name of None \<Rightarrow> d | Some v \<Rightarrow> v)"

text \<open>\<open>main()\<close>; \<open>n\<close> counts the connections to the library server made before it.\<close>

definition main :: "(string \<Rightarrow> string option) \<Rightarrow> world \<Rightarrow> nat \<Rightarrow> exit_status \<times> updater_state" where
  "main env w n =
     (let cfg = Config (getenv_default env ''PLEX_URL'' [])
                       (getenv_default env ''PLEX_TOKEN'' [])
                       (getenv_default env ''TMDB_API_KEY'' [])
      in case PlexSummaryUpdater cfg w n of
           Inl e \<Rightarrow> (SystemExit (''Error: '' @ str_exn e), init_state)
         | Inr sections \<Rightarrow>
             (case update_library cfg w (pool_schedule w) sections init_state of
                (Some e, st) \<Rightarrow> (SystemExit (''Error: '' @ str_exn e), st)
              | (None, st) \<Rightarrow> (Exit0, st)))"

text \<open>
  Running \<open>main.py\<close>: the module body first, with its own
  \<open>plex = PlexServer(PLEX_URL, PLEX_TOKEN)\<close> outside any \<open>try\<close>, then \<open>main()\<close>.
\<close>

definition run_script :: "(string \<Rightarrow> string option) \<Rightarrow> world \<Rightarrow> exit_status \<times> updater_state" where
  "run_script env w =
     (case plex_connect w 0 (env ''PLEX_URL'') (env ''PLEX_TOKEN'') of
        Inl e \<Rightarrow> (Uncaught e, init_state)
      | Inr plex \<Rightarrow> main env w 1)"

declare run_pool.simps [simp del]

section \<open>Concrete services and items\<close>

text \<open>Services that always give the same answer, a metadata database that numbers its
  answers, and a few items and environments to run the definitions on.\<close>

definition ok_response :: "json \<Rightarrow> response" where
  "ok_response v = \<lparr>status_code = 200, http_error_msg = [], json_body = Inr v\<rparr>"

definition not_found_response :: response where
  "not_found_response =
     \<lparr>status_code = 404, http_error_msg = ''404 Client Error: Not Found'',
      json_body = Inr (JObj [(''success'', JBool False), (''status_code'', JInt 34)])\<rparr>"

definition const_world :: "(exn + response) \<Rightarrow> exn option \<Rightarrow> world" where
  "const_world answer edit_answer =
     \<lparr>transport = (\<lambda>n req. answer), item_edit = (\<lambda>n media_item v. edit_answer),
      plex_connect = (\<lambda>n url token. Inr []), pool_schedule = []\<rparr>"

definition counting_world :: world where
  "counting_world =
     \<lparr>transport = (\<lambda>n req. Inr (ok_response (JInt (int n)))),
      item_edit = (\<lambda>n media_item v. None),
      plex_connect = (\<lambda>n url token. Inr []), pool_schedule = []\<rparr>"

definition unreachable_world :: world where
  "unreachable_world =
     \<lparr>transport = (\<lambda>n req. Inl (RequestException ''unreachable'')),
      item_edit = (\<lambda>n media_item v. None),
      plex_connect = (\<lambda>n url token. Inl (OtherException ''Connection refused'')),
      pool_schedule = []\<rparr>"

text \<open>As many different lookups as the cache has room for.\<close>

definition filler_calls :: "client_call list" where
  "filler_calls = map (\<lambda>i. (replicate (Suc i) CHR ''x'', [], [])) [0..<maxsize]"

definition cfg0 :: config where
  "cfg0 = Config ''http://plex:32400'' ''token'' ''key''"

definition heat :: media_item where
  "heat = \<lparr>item_title = ''Heat'', item_summary = ''old'', item_type = ''movie'',
           item_year = Some 1995, item_guids = [''imdb://tt0113277'', ''tmdb://949'']\<rparr>"

definition dark :: media_item where
  "dark = \<lparr>item_title = ''Dark'', item_summary = ''old'', item_type = ''show'',
           item_year = None, item_guids = [''tvdb://334824'']\<rparr>"

definition solaris :: media_item where
  "solaris = \<lparr>item_title = ''Solaris'', item_summary = [], item_type = ''movie'',
              item_year = Some 1972, item_guids = [''imdb://tt0069293'']\<rparr>"

definition blank_id :: media_item where
  "blank_id = \<lparr>item_title = ''Heat'', item_summary = ''old'', item_type = ''movie'',
               item_year = Some 1995, item_guids = [''tmdb://'']\<rparr>"

text \<open>A lookup, then the filler calls, against the database that numbers its answers.\<close>

definition after_first :: updater_state where
  "after_first = snd (make_tmdb_request cfg0 counting_world ''movie/949'' [] [] init_state)"

definition after_filler :: updater_state where
  "after_filler = make_requests cfg0 counting_world filler_calls after_first"

text \<open>A lookup, a few other calls (one of them with a transport option), the lookup again.\<close>

definition few_calls :: "client_call list" where
  "few_calls =
     [(''tv/1399'', [], []),
      (''search/movie'', [(''query'', PStr ''Heat'')], [(''timeout'', ''5'')]),
      (''search/tv'', [(''year'', PNone), (''query'', PStr ''Dark'')], []),
      (''tv/1399'', [], [])]"

definition movies :: library_section where
  "movies = \<lparr>section_title = ''Movies'', section_type = ''movie'',
             section_items = [heat, dark, solaris]\<rparr>"

definition no_key_env :: "string \<Rightarrow> string option" where
  "no_key_env name =
     (if name = ''PLEX_URL'' then Some ''http://plex:32400''
      else if name = ''PLEX_TOKEN'' then Some ''token''
      else None)"

definition full_env :: "string \<Rightarrow> string option" where
  "full_env name =
     (if name = ''PLEX_URL'' then Some ''http://plex:32400''
      else if name = ''PLEX_TOKEN'' then Some ''token''
      else if name = ''TMDB_API_KEY'' then Some ''key''
      else None)"

definition overview_response :: "string \<Rightarrow> exn + response" where
  "overview_response text = Inr (ok_response (JObj [(''id'', JInt 949), (''overview'', JStr text)]))"

definition same_overview_world :: world where
  "same_overview_world = const_world (overview_response ''old'') None"

definition new_overview_world :: world where
  "new_overview_world = const_world (overview_response ''new'') None"

definition read_only_world :: world where
  "read_only_world = const_world (overview_response ''new'') (Some (OtherException ''read-only''))"

definition no_overview_world :: world where
  "no_overview_world = const_world (Inr (ok_response (JObj [(''id'', JInt 949)]))) None"

definition empty_search_world :: world where
  "empty_search_world = const_world (Inr (ok_response (JObj [(''results'', JArr [])]))) None"

definition null_world :: world where
  "null_world = const_world (Inr (ok_response JNull)) None"

definition two_results_world :: world where
  "two_results_world =
     const_world (Inr (ok_response (JObj [(''results'',
        JArr [JObj [(''overview'', JStr ''first'')], JObj [(''overview'', JStr ''second'')]])])))
       None"

definition not_found_world :: world where
  "not_found_world = const_world (Inr not_found_response) None"

lemmas service_defs =
  ok_response_def not_found_response_def const_world_def counting_world_def
  unreachable_world_def overview_response_def same_overview_world_def new_overview_world_def
  read_only_world_def no_overview_world_def empty_search_world_def not_found_world_def
  null_world_def

lemmas item_defs = cfg0_def Config_def heat_def dark_def blank_id_def init_state_def

lemmas client_defs =
  make_tmdb_request_def make_tmdb_request_cached_def request_json_def session_get_def
  raise_for_status_def encode_params_def lru_hit_def lru_store_def maxsize_def

lemmas resolve_defs =
  get_tmdb_data_def get_tmdb_id_def search_tmdb_def search_params_def media_type_of_def Let_def

lemmas reconcile_defs = update_item_def update_item_try_def edit_summary_def

section \<open>What a request and a resolution leave untouched\<close>

lemma request_json_edit_log:
  "edit_log (snd (request_json cfg w endpoint ps kw st)) = edit_log st"
  by (simp add: request_json_def session_get_def Let_def split: sum.splits option.splits)

lemma make_tmdb_request_cached_edit_log:
  "edit_log (snd (make_tmdb_request_cached cfg w endpoint qs st)) = edit_log st"
  using request_json_edit_log [of cfg w endpoint qs "[]" st]
  by (auto simp: make_tmdb_request_cached_def split: option.splits prod.splits sum.splits)

lemma make_tmdb_request_edit_log:
  "edit_log (snd (make_tmdb_request cfg w endpoint ps kw st)) = edit_log st"
  by (simp add: make_tmdb_request_def Let_def make_tmdb_request_cached_edit_log
      request_json_edit_log)

lemma search_tmdb_edit_log:
  "edit_log (snd (search_tmdb cfg w media_item st)) = edit_log st"
  using make_tmdb_request_edit_log
    [of cfg w "''search/'' @ media_type_of media_item" "search_params media_item" "[]" st]
  by (auto simp: search_tmdb_def Let_def split: prod.splits sum.splits)

lemma get_tmdb_data_edit_log:
  "edit_log (snd (get_tmdb_data cfg w media_item st)) = edit_log st"
  by (simp add: get_tmdb_data_def search_tmdb_edit_log make_tmdb_request_edit_log
      split: option.splits)

section \<open>The worker\<close>

lemma update_item_try_title:
  "fst (update_item_try cfg w media_item st) = Inr r \<Longrightarrow> fst r = item_title media_item"
  by (auto simp: update_item_try_def split: prod.splits sum.splits if_splits option.splits)

lemma update_item_returns:
  "\<exists>outcome. fst (update_item cfg w media_item st) = Inr (item_title media_item, outcome)"
proof (cases "fst (update_item_try cfg w media_item st)")
  case (Inl e)
  then show ?thesis by (auto simp: update_item_def split: prod.splits)
next
  case (Inr r)
  then have "fst r = item_title media_item" by (rule update_item_try_title)
  with Inr show ?thesis
    by (cases r) (auto simp: update_item_def split: prod.splits)
qed

lemma update_library_completes:
  "0 < max_workers cfg \<Longrightarrow> fst (update_library cfg w sched sections st) = None"
  by (induction sections arbitrary: sched st)
     (auto simp: process_section_def Let_def split: prod.splits sum.splits)

text \<open>
  C4. Whatever \<open>Exception\<close> the \<open>try\<close> block of \<open>_update_item\<close> raises (in resolution, in
  the comparison or in the write), \<open>_update_item\<close> returns: its value is the pair of
  the item's title and \<open>"Error: "\<close> followed by the message of the exception. It never
  hands an exception to the section processor, and with a usable pool (\<open>max_workers\<close>
  positive) \<open>update_library\<close> goes through all sections without raising, whatever the
  services answer.
\<close>

theorem update_item_catches:
  "(\<exists>outcome. fst (update_item cfg w media_item st) = Inr (item_title media_item, outcome)) \<and>
   (\<forall>e. fst (update_item_try cfg w media_item st) = Inl e \<longrightarrow>
        fst (update_item cfg w media_item st)
          = Inr (item_title media_item, ''Error: '' @ str_exn e)) \<and>
   (0 < max_workers cfg \<longrightarrow> fst (update_library cfg w sched sections st) = None)"
  using update_item_returns [of cfg w media_item st]
    update_library_completes [of cfg w sched sections st]
  by (auto simp: update_item_def split: prod.splits)

theorem update_item_catches_witness:
  "fst (update_item_try cfg0 unreachable_world heat init_state)
     = Inl (TMDBError ''TMDB API request failed: unreachable'') \<and>
   fst (update_item cfg0 unreachable_world heat init_state)
     = Inr (''Heat'', ''Error: TMDB API request failed: unreachable'') \<and>
   0 < max_workers cfg0 \<and>
   fst (update_library cfg0 unreachable_world [] [movies] init_state) = None"
proof -
  have raised: "fst (update_item_try cfg0 unreachable_world heat init_state)
                  = Inl (TMDBError ''TMDB API request failed: unreachable'')"
    by (simp add: update_item_try_def resolve_defs client_defs service_defs item_defs)
  have pool: "0 < max_workers cfg0" by (simp add: cfg0_def Config_def)
  show ?thesis
    using raised pool
      update_item_catches [of cfg0 unreachable_world heat init_state "[]" "[movies]"]
    by (simp add: heat_def del: update_library.simps)
qed

text \<open>
  C3, as the code has it. When resolution returns \<open>None\<close>, the outcome is exactly
  \<open>"No TMDB match found"\<close> and no write is made. (The claim names the label
  \<open>"No match found"\<close>, which the code never produces.)
\<close>

theorem no_record_outcome:
  assumes "fst (get_tmdb_data cfg w media_item st) = Inr JNull"
  shows "fst (update_item cfg w media_item st)
           = Inr (item_title media_item, ''No TMDB match found'') \<and>
         edit_log (snd (update_item cfg w media_item st)) = edit_log st"
  using assms get_tmdb_data_edit_log [of cfg w media_item st]
  by (auto simp: update_item_def update_item_try_def split: prod.splits sum.splits)

theorem no_record_outcome_witness:
  "fst (get_tmdb_data cfg0 empty_search_world dark init_state) = Inr JNull \<and>
   fst (update_item cfg0 empty_search_world dark init_state)
     = Inr (''Dark'', ''No TMDB match found'') \<and>
   edit_log (snd (update_item cfg0 empty_search_world dark init_state)) = []"
proof -
  have h: "fst (get_tmdb_data cfg0 empty_search_world dark init_state) = Inr JNull"
    by (simp add: resolve_defs client_defs service_defs item_defs)
  show ?thesis
    using h no_record_outcome [OF h] by (simp add: item_defs)
qed

theorem no_match_label_counterexample:
  "fst (get_tmdb_data cfg0 empty_search_world dark init_state) = Inr JNull \<and>
   fst (update_item cfg0 empty_search_world dark init_state)
     \<noteq> Inr (item_title dark, ''No match found'')"
  by (simp add: reconcile_defs resolve_defs client_defs service_defs item_defs)




text \<open>
  C10. When resolution returns a non-empty record that has no \<open>"overview"\<close> key, the
  outcome is none of \<open>"No match found"\<close>, \<open>"No TMDB match found"\<close>, \<open>"Updated"\<close> and
  \<open>"No change needed"\<close>: the \<open>KeyError\<close> of the missing key is caught and the outcome is
  \<open>"Error: 'overview'"\<close>; no write is made.
\<close>

theorem missing_overview_is_error:
  assumes "fst (get_tmdb_data cfg w media_item st) = Inr (JObj kvs)"
    and "kvs \<noteq> []" and "map_of kvs ''overview'' = None"
  shows "\<exists>outcome. fst (update_item cfg w media_item st) = Inr (item_title media_item, outcome) \<and>
           outcome = ''Error: '' @ CHR 0x27 # ''overview'' @ [CHR 0x27] \<and>
           outcome \<notin> {''No match found'', ''No TMDB match found'', ''Updated'', ''No change needed''} \<and>
           edit_log (snd (update_item cfg w media_item st)) = edit_log st"
  using assms get_tmdb_data_edit_log [of cfg w media_item st]
  by (auto simp: update_item_def update_item_try_def split: prod.splits sum.splits)

theorem missing_overview_is_error_witness:
  "fst (get_tmdb_data cfg0 no_overview_world heat init_state) = Inr (JObj [(''id'', JInt 949)]) \<and>
   fst (update_item cfg0 no_overview_world heat init_state)
     = Inr (''Heat'', ''Error: '' @ CHR 0x27 # ''overview'' @ [CHR 0x27]) \<and>
   edit_log (snd (update_item cfg0 no_overview_world heat init_state)) = []"
proof -
  have h: "fst (get_tmdb_data cfg0 no_overview_world heat init_state)
             = Inr (JObj [(''id'', JInt 949)])"
    by (simp add: resolve_defs client_defs service_defs item_defs)
  show ?thesis
    using h missing_overview_is_error [OF h] by (simp add: item_defs)
qed


section \<open>Resolution: which call is made\<close>

lemma contains_iff: "contains pat s \<longleftrightarrow> (\<exists>pre post. s = pre @ pat @ post)"
proof (induction s)
  case Nil
  then show ?case by auto
next
  case (Cons c cs)
  show ?case
  proof
    assume "contains pat (c # cs)"
    then consider "take (length pat) (c # cs) = pat" | "contains pat cs" by auto
    then show "\<exists>pre post. c # cs = pre @ pat @ post"
    proof cases
      case 1
      then have "c # cs = [] @ pat @ drop (length pat) (c # cs)"
        by (metis append_Nil append_take_drop_id)
      then show ?thesis by blast
    next
      case 2
      then obtain pre post where "cs = pre @ pat @ post" using Cons.IH by blast
      then have "c # cs = (c # pre) @ pat @ post" by simp
      then show ?thesis by blast
    qed
  next
    assume "\<exists>pre post. c # cs = pre @ pat @ post"
    then obtain pre post where eq: "c # cs = pre @ pat @ post" by blast
    show "contains pat (c # cs)"
    proof (cases pre)
      case Nil
      then have "take (length pat) (c # cs) = pat" using eq by simp
      then show ?thesis by simp
    next
      case (Cons d pre')
      then have "cs = pre' @ pat @ post" using eq by simp
      then have "contains pat cs" using Cons.IH by blast
      then show ?thesis by simp
    qed
  qed
qed

lemma first_tmdb_guid_None:
  "first_tmdb_guid gs = None \<longleftrightarrow> (\<forall>g\<in>set gs. \<not> contains ''tmdb'' g)"
  by (induction gs) auto

lemma request_json_client_log:
  "client_log (snd (request_json cfg w endpoint ps kw st)) = client_log st"
  by (simp add: request_json_def session_get_def Let_def split: sum.splits option.splits)

lemma make_tmdb_request_cached_client_log:
  "client_log (snd (make_tmdb_request_cached cfg w endpoint qs st)) = client_log st"
  using request_json_client_log [of cfg w endpoint qs "[]" st]
  by (auto simp: make_tmdb_request_cached_def split: option.splits prod.splits sum.splits)

lemma make_tmdb_request_client_log:
  "client_log (snd (make_tmdb_request cfg w endpoint ps kw st))
     = client_log st @ [(endpoint, ps, kw)]"
  by (simp add: make_tmdb_request_def Let_def make_tmdb_request_cached_client_log
      request_json_client_log)

lemma search_tmdb_client_log:
  "client_log (snd (search_tmdb cfg w media_item st))
     = client_log st @ [(''search/'' @ media_type_of media_item, search_params media_item, [])]"
  using make_tmdb_request_client_log
    [of cfg w "''search/'' @ media_type_of media_item" "search_params media_item" "[]" st]
  by (auto simp: search_tmdb_def Let_def split: prod.splits sum.splits)





text \<open>
  C7, as the code has it. For an item with a metadata-database ID whose direct lookup is
  not answered from the cache: when the database answers with an error status (400 to
  599, so also 404 for a missing or stale ID), resolution raises \<open>TMDBError\<close>; when it
  answers with another status and the body \<open>null\<close>, resolution returns \<open>None\<close> and does not
  raise.
\<close>

theorem lookup_not_found:
  assumes "get_tmdb_id media_item = Some tmdb_id" and "tmdb_id \<noteq> []"
    and "map_of (cache st) (media_type_of media_item @ ''/'' @ tmdb_id, []) = None"
    and "transport w (length (transport_log st))
           \<lparr>req_url = tmdb_base_url cfg @ ''/'' @ media_type_of media_item @ ''/'' @ tmdb_id,
            req_params = [], req_verify = verify_ssl cfg, req_kwargs = []\<rparr> = Inr r"
  shows "(400 \<le> status_code r \<and> status_code r < 600 \<longrightarrow>
            fst (get_tmdb_data cfg w media_item st)
              = Inl (TMDBError (''TMDB API request failed: '' @ http_error_msg r))) \<and>
         (\<not> (400 \<le> status_code r \<and> status_code r < 600) \<and> json_body r = Inr JNull \<longrightarrow>
            fst (get_tmdb_data cfg w media_item st) = Inr JNull)"
  using assms
  by (simp add: get_tmdb_data_def make_tmdb_request_def make_tmdb_request_cached_def
      request_json_def session_get_def raise_for_status_def encode_params_def Let_def)

theorem lookup_not_found_witness:
  "fst (get_tmdb_data cfg0 not_found_world heat init_state)
     = Inl (TMDBError ''TMDB API request failed: 404 Client Error: Not Found'') \<and>
   fst (get_tmdb_data cfg0 null_world heat init_state) = Inr JNull"
proof -
  have i: "get_tmdb_id heat = Some ''949''" "''949'' \<noteq> []"
    by (simp_all add: get_tmdb_id_def heat_def)
  have c: "map_of (cache init_state) (media_type_of heat @ ''/'' @ ''949'', []) = None"
    by (simp add: init_state_def)
  have nf: "transport not_found_world (length (transport_log init_state))
              \<lparr>req_url = tmdb_base_url cfg0 @ ''/'' @ media_type_of heat @ ''/'' @ ''949'',
               req_params = [], req_verify = verify_ssl cfg0, req_kwargs = []\<rparr>
            = Inr not_found_response"
    by (simp add: service_defs)
  have nu: "transport null_world (length (transport_log init_state))
              \<lparr>req_url = tmdb_base_url cfg0 @ ''/'' @ media_type_of heat @ ''/'' @ ''949'',
               req_params = [], req_verify = verify_ssl cfg0, req_kwargs = []\<rparr>
            = Inr (ok_response JNull)"
    by (simp add: service_defs null_world_def)
  show ?thesis
    using lookup_not_found [OF i c nf] lookup_not_found [OF i c nu]
    by (simp add: service_defs)
qed

theorem stale_id_raises_counterexample:
  "get_tmdb_id heat = Some ''949'' \<and>
   transport not_found_world 0
     \<lparr>req_url = ''https://api.themoviedb.org/3/movie/949'', req_params = [],
      req_verify = False, req_kwargs = []\<rparr> = Inr not_found_response \<and>
   status_code not_found_response = 404 \<and>
   fst (get_tmdb_data cfg0 not_found_world heat init_state)
     = Inl (TMDBError ''TMDB API request failed: 404 Client Error: Not Found'') \<and>
   fst (update_item cfg0 not_found_world heat init_state)
     = Inr (''Heat'', ''Error: TMDB API request failed: 404 Client Error: Not Found'')"
  by (simp add: reconcile_defs resolve_defs client_defs service_defs item_defs)

section \<open>Resolution: the search\<close>

lemma sort_search_params: "sort_key fst (search_params media_item) = search_params media_item"
  by (simp add: search_params_def)

lemma request_json_transport_log:
  "transport_log (snd (request_json cfg w endpoint ps kw st))
     = transport_log st @
       [\<lparr>req_url = tmdb_base_url cfg @ ''/'' @ endpoint, req_params = encode_params ps,
         req_verify = verify_ssl cfg, req_kwargs = kw\<rparr>]"
  by (simp add: request_json_def session_get_def Let_def split: sum.splits option.splits)

lemma make_tmdb_request_cached_transport_log:
  "transport_log (snd (make_tmdb_request_cached cfg w endpoint qs st)) =
     (if map_of (cache st) (endpoint, qs) = None
      then transport_log st @
           [\<lparr>req_url = tmdb_base_url cfg @ ''/'' @ endpoint, req_params = encode_params qs,
             req_verify = verify_ssl cfg, req_kwargs = []\<rparr>]
      else transport_log st)"
  using request_json_transport_log [of cfg w endpoint qs "[]" st]
  by (auto simp: make_tmdb_request_cached_def split: option.splits prod.splits sum.splits)

lemma encode_search_params:
  "encode_params (search_params media_item) =
     (''query'', PStr (item_title media_item)) #
     (case item_year media_item of None \<Rightarrow> [] | Some y \<Rightarrow> [(''year'', PInt y)])"
  by (simp add: encode_params_def search_params_def split: option.splits)

text \<open>
  C8. For an item none of whose references contains \<open>tmdb\<close>, resolution makes exactly one
  call of the client: the search (\<open>search/movie\<close> or \<open>search/tv\<close>) with \<open>query\<close> the
  title and \<open>year\<close> the release year, \<open>None\<close> when the item has no year. An HTTP request
  made for it carries \<open>query\<close> and, only when the item has a year, \<open>year\<close>. When the
  call returns a dictionary whose \<open>results\<close> is a list, resolution returns the first
  element of the list, or \<open>None\<close> when the list is empty.
\<close>

theorem search_call:
  assumes "\<forall>g\<in>set (item_guids media_item). \<not> contains ''tmdb'' g"
  shows "client_log (snd (get_tmdb_data cfg w media_item st))
           = client_log st @
             [(''search/'' @ (if item_type media_item = ''movie'' then ''movie'' else ''tv''),
               [(''query'', PStr (item_title media_item)),
                (''year'', case item_year media_item of None \<Rightarrow> PNone | Some y \<Rightarrow> PInt y)],
               [])] \<and>
         (transport_log (snd (get_tmdb_data cfg w media_item st)) = transport_log st \<or>
          transport_log (snd (get_tmdb_data cfg w media_item st))
            = transport_log st @
              [\<lparr>req_url = tmdb_base_url cfg @ ''/search/'' @
                           (if item_type media_item = ''movie'' then ''movie'' else ''tv''),
                req_params = (''query'', PStr (item_title media_item)) #
                   (case item_year media_item of None \<Rightarrow> [] | Some y \<Rightarrow> [(''year'', PInt y)]),
                req_verify = verify_ssl cfg, req_kwargs = []\<rparr>]) \<and>
         (\<forall>kvs xs. fst (make_tmdb_request cfg w (''search/'' @ media_type_of media_item)
                          (search_params media_item) [] st) = Inr (JObj kvs) \<and>
                   map_of kvs ''results'' = Some (JArr xs) \<longrightarrow>
            fst (get_tmdb_data cfg w media_item st)
              = Inr (case xs of [] \<Rightarrow> JNull | x # _ \<Rightarrow> x))"
proof -
  have none: "get_tmdb_id media_item = None"
    using assms by (simp add: get_tmdb_id_def first_tmdb_guid_None)
  then have search: "get_tmdb_data cfg w media_item st = search_tmdb cfg w media_item st"
    by (simp add: get_tmdb_data_def)
  have calls: "client_log (snd (get_tmdb_data cfg w media_item st))
           = client_log st @
             [(''search/'' @ (if item_type media_item = ''movie'' then ''movie'' else ''tv''),
               [(''query'', PStr (item_title media_item)),
                (''year'', case item_year media_item of None \<Rightarrow> PNone | Some y \<Rightarrow> PInt y)],
               [])]"
    using search_tmdb_client_log [of cfg w media_item st]
    by (simp add: search media_type_of_def search_params_def)
  define ep where "ep = ''search/'' @ media_type_of media_item"
  define st1 where "st1 = st\<lparr>client_log := client_log st @ [(ep, search_params media_item, [])]\<rparr>"
  have req: "make_tmdb_request cfg w ep (search_params media_item) [] st
               = make_tmdb_request_cached cfg w ep (search_params media_item) st1"
    by (simp add: make_tmdb_request_def Let_def sort_search_params st1_def)
  have tl: "transport_log (snd (search_tmdb cfg w media_item st))
              = transport_log (snd (make_tmdb_request cfg w ep (search_params media_item) [] st))"
    by (auto simp: search_tmdb_def Let_def ep_def split: prod.splits sum.splits)
  have url: "tmdb_base_url cfg @ ''/'' @ ep
               = tmdb_base_url cfg @ ''/search/'' @
                 (if item_type media_item = ''movie'' then ''movie'' else ''tv'')"
    by (simp add: ep_def media_type_of_def)
  have "transport_log (snd (make_tmdb_request_cached cfg w ep (search_params media_item) st1))
          = transport_log st1 \<or>
        transport_log (snd (make_tmdb_request_cached cfg w ep (search_params media_item) st1))
          = transport_log st1 @
            [\<lparr>req_url = tmdb_base_url cfg @ ''/'' @ ep,
              req_params = encode_params (search_params media_item),
              req_verify = verify_ssl cfg, req_kwargs = []\<rparr>]"
    by (simp add: make_tmdb_request_cached_transport_log)
  then have wire: "transport_log (snd (get_tmdb_data cfg w media_item st)) = transport_log st \<or>
          transport_log (snd (get_tmdb_data cfg w media_item st))
            = transport_log st @
              [\<lparr>req_url = tmdb_base_url cfg @ ''/search/'' @
                           (if item_type media_item = ''movie'' then ''movie'' else ''tv''),
                req_params = (''query'', PStr (item_title media_item)) #
                   (case item_year media_item of None \<Rightarrow> [] | Some y \<Rightarrow> [(''year'', PInt y)]),
                req_verify = verify_ssl cfg, req_kwargs = []\<rparr>]"
    unfolding search tl req url encode_search_params by (simp add: st1_def)
  have first: "\<forall>kvs xs. fst (make_tmdb_request cfg w (''search/'' @ media_type_of media_item)
                          (search_params media_item) [] st) = Inr (JObj kvs) \<and>
                   map_of kvs ''results'' = Some (JArr xs) \<longrightarrow>
            fst (get_tmdb_data cfg w media_item st)
              = Inr (case xs of [] \<Rightarrow> JNull | x # _ \<Rightarrow> x)"
    by (auto simp: search search_tmdb_def Let_def split: prod.splits sum.splits list.splits)
  show ?thesis using calls wire first by blast
qed

theorem search_call_witness:
  "(item_guids dark = [''tvdb://334824''] \<and> \<not> contains ''tmdb'' ''tvdb://334824'' \<and>
    client_log (snd (get_tmdb_data cfg0 two_results_world dark init_state))
      = [(''search/tv'', [(''query'', PStr ''Dark''), (''year'', PNone)], [])] \<and>
    transport_log (snd (get_tmdb_data cfg0 two_results_world dark init_state))
      = [\<lparr>req_url = ''https://api.themoviedb.org/3/search/tv'',
          req_params = [(''query'', PStr ''Dark'')], req_verify = False, req_kwargs = []\<rparr>] \<and>
    fst (get_tmdb_data cfg0 two_results_world dark init_state)
      = Inr (JObj [(''overview'', JStr ''first'')])) \<and>
   (item_guids solaris = [''imdb://tt0069293''] \<and> \<not> contains ''tmdb'' ''imdb://tt0069293'' \<and>
    client_log (snd (get_tmdb_data cfg0 empty_search_world solaris init_state))
      = [(''search/movie'', [(''query'', PStr ''Solaris''), (''year'', PInt 1972)], [])] \<and>
    transport_log (snd (get_tmdb_data cfg0 empty_search_world solaris init_state))
      = [\<lparr>req_url = ''https://api.themoviedb.org/3/search/movie'',
          req_params = [(''query'', PStr ''Solaris''), (''year'', PInt 1972)],
          req_verify = False, req_kwargs = []\<rparr>] \<and>
    fst (get_tmdb_data cfg0 empty_search_world solaris init_state) = Inr JNull)"
proof -
  have d: "\<forall>g\<in>set (item_guids dark). \<not> contains ''tmdb'' g"
    by (simp add: dark_def)
  have s: "\<forall>g\<in>set (item_guids solaris). \<not> contains ''tmdb'' g"
    by (simp add: solaris_def)
  have rd: "fst (make_tmdb_request cfg0 two_results_world (''search/'' @ media_type_of dark)
                   (search_params dark) [] init_state)
              = Inr (JObj [(''results'', JArr [JObj [(''overview'', JStr ''first'')],
                                               JObj [(''overview'', JStr ''second'')]])])"
    by (simp add: resolve_defs client_defs service_defs item_defs two_results_world_def)
  have rs: "fst (make_tmdb_request cfg0 empty_search_world (''search/'' @ media_type_of solaris)
                   (search_params solaris) [] init_state)
              = Inr (JObj [(''results'', JArr [])])"
    by (simp add: resolve_defs client_defs service_defs item_defs solaris_def)
  have td: "transport_log (snd (get_tmdb_data cfg0 two_results_world dark init_state))
              \<noteq> transport_log init_state"
    by (simp add: resolve_defs client_defs service_defs item_defs two_results_world_def)
  have ts: "transport_log (snd (get_tmdb_data cfg0 empty_search_world solaris init_state))
              \<noteq> transport_log init_state"
    by (simp add: resolve_defs client_defs service_defs item_defs solaris_def)
  show ?thesis
    using search_call [OF d, of cfg0 two_results_world init_state]
      search_call [OF s, of cfg0 empty_search_world init_state] rd rs td ts
    by (simp add: item_defs solaris_def)
qed


section \<open>The section processor\<close>

lemma run_pool_results:
  "length (fst (run_pool cfg w sched pending st)) = length pending \<and>
   mset (map fst (fst (run_pool cfg w sched pending st))) = mset (map item_title pending)"
proof (induction cfg w sched pending st rule: run_pool.induct)
  case (1 cfg w sched pending st)
  show ?case
  proof (cases "pending = []")
    case True
    then show ?thesis by (simp add: run_pool.simps)
  next
    case False
    define i where "i = (case sched of [] \<Rightarrow> 0 | c # x \<Rightarrow> c mod length pending)"
    define done_item where "done_item = update_item cfg w (pending ! i) st"
    define remaining where "remaining = take i pending @ drop (Suc i) pending"
    define rest where "rest = run_pool cfg w (tl sched) remaining (snd done_item)"
    from False have "0 < length pending" by simp
    then have less: "i < length pending"
      by (cases sched) (simp_all add: i_def)
    then have split: "pending = take i pending @ pending ! i # drop (Suc i) pending"
      by (rule id_take_nth_drop)
    have "mset pending = add_mset (pending ! i) (mset remaining)"
      by (subst split) (simp add: remaining_def)
    then have titles: "mset (map item_title pending)
        = add_mset (item_title (pending ! i)) (mset (map item_title remaining))"
      by (metis image_mset_add_mset mset_map)
    have len: "length pending = Suc (length remaining)"
      using less by (simp add: remaining_def)
    obtain outcome where out: "fst done_item = Inr (item_title (pending ! i), outcome)"
      using update_item_returns [of cfg w "pending ! i" st] by (auto simp: done_item_def)
    have ih: "length (fst rest) = length remaining \<and>
              mset (map fst (fst rest)) = mset (map item_title remaining)"
      using "1.IH" [OF False i_def done_item_def]
      by (simp add: rest_def remaining_def)
    have unfold: "run_pool cfg w sched pending st
                    = ((item_title (pending ! i), outcome) # fst rest, snd rest)"
      using False out
      by (subst run_pool.simps)
         (simp add: Let_def i_def [symmetric] done_item_def [symmetric]
            remaining_def [symmetric] rest_def [symmetric])
    show ?thesis
      using ih titles by (simp add: unfold len)
  qed
qed

text \<open>
  C6. A section processed with a usable pool (\<open>max_workers\<close> positive, as \<open>Config\<close>
  gives it) collects exactly one result per item, in whatever order the tasks finish and
  whether the worker succeeded or met an exception: the result list is as long as the
  item list and its titles are the items' titles, counted with multiplicity.
\<close>

theorem every_item_one_result:
  assumes "0 < max_workers cfg"
  shows "\<exists>results. fst (process_section cfg w sched section st) = Inr results \<and>
           length results = length (section_items section) \<and>
           mset (map fst results) = mset (map item_title (section_items section))"
  using assms run_pool_results [of cfg w sched "section_items section" st]
  by (simp add: process_section_def Let_def)

theorem every_item_one_result_witness:
  "0 < max_workers cfg0 \<and>
   fst (process_section cfg0 unreachable_world [2, 0] movies init_state)
     = Inr [(''Solaris'', ''Error: TMDB API request failed: unreachable''),
            (''Heat'', ''Error: TMDB API request failed: unreachable''),
            (''Dark'', ''Error: TMDB API request failed: unreachable'')] \<and>
   section_items movies = [heat, dark, solaris]"
proof -
  have h: "0 < max_workers cfg0" by (simp add: cfg0_def Config_def)
  have v: "fst (process_section cfg0 unreachable_world [2, 0] movies init_state)
     = Inr [(''Solaris'', ''Error: TMDB API request failed: unreachable''),
            (''Heat'', ''Error: TMDB API request failed: unreachable''),
            (''Dark'', ''Error: TMDB API request failed: unreachable'')]"
    by (simp add: process_section_def movies_def run_pool.simps reconcile_defs resolve_defs
        client_defs service_defs item_defs solaris_def)
  show ?thesis
    using h v every_item_one_result [OF h, of unreachable_world "[2, 0]" movies init_state]
    by (simp add: movies_def)
qed

section \<open>Start of the process\<close>

lemma main_startup_failure:
  "PlexSummaryUpdater
     (Config (getenv_default env ''PLEX_URL'' []) (getenv_default env ''PLEX_TOKEN'' [])
        (getenv_default env ''TMDB_API_KEY'' [])) w n = Inl e \<Longrightarrow>
   main env w n = (SystemExit (''Error: '' @ str_exn e), init_state)"
  by (simp add: main_def Let_def)

lemma missing_key_exit:
  "run_script no_key_env null_world
     = (SystemExit ''Error: Missing required configuration: tmdb_api_key'', init_state)"
  by (simp add: run_script_def main_def PlexSummaryUpdater_def validate_config_def
      config_attr_def Config_def getenv_default_def no_key_env_def null_world_def
      const_world_def Let_def)

lemma main_connection_refused:
  "main full_env unreachable_world 1
     = (SystemExit ''Error: Failed to connect to Plex: Connection refused'', init_state)"
  by (simp add: main_def PlexSummaryUpdater_def validate_config_def config_attr_def init_plex_def
      Config_def getenv_default_def full_env_def unreachable_world_def Let_def)

text \<open>
  C9 at a failing run. With the three variables set and a library server that refuses
  the connection, the script ends in the module body: the \<open>PlexServer\<close> call there is
  outside any \<open>try\<close>, so the exception is never turned into \<open>SystemExit("Error: ...")\<close>.
  Nothing is processed and the status is 1, but there is no exit message that starts with
  \<open>"Error: "\<close>. The same failure inside \<open>main()\<close> would give one (lemma
  \<open>main_connection_refused\<close>).
\<close>

theorem module_connect_uncaught:
  "run_script full_env unreachable_world
     = (Uncaught (OtherException ''Connection refused''), init_state) \<and>
   exit_code (fst (run_script full_env unreachable_world)) = 1"
  by (simp add: run_script_def full_env_def unreachable_world_def)


section \<open>The request cache\<close>

lemma request_json_cache:
  "cache (snd (request_json cfg w endpoint ps kw st)) = cache st"
  by (simp add: request_json_def session_get_def Let_def split: sum.splits option.splits)

lemma request_json_result:
  "transport_log st' = transport_log st \<Longrightarrow>
   fst (request_json cfg w endpoint ps kw st') = fst (request_json cfg w endpoint ps kw st)"
  by (simp add: request_json_def session_get_def Let_def split: sum.splits option.splits)

lemma bypass_cache:
  assumes "kw \<noteq> []"
  shows "cache (snd (make_tmdb_request cfg w endpoint ps kw st)) = cache st \<and>
         fst (make_tmdb_request cfg w endpoint ps kw (st\<lparr>cache := c\<rparr>))
           = fst (make_tmdb_request cfg w endpoint ps kw st)"
proof -
  define st1 where "st1 = st\<lparr>client_log := client_log st @ [(endpoint, ps, kw)]\<rparr>"
  define st2 where "st2 = st\<lparr>cache := c, client_log := client_log st @ [(endpoint, ps, kw)]\<rparr>"
  have same: "cache (snd (request_json cfg w endpoint ps kw st1)) = cache st"
    using request_json_cache [of cfg w endpoint ps kw st1] by (simp add: st1_def)
  have "transport_log st2 = transport_log st1" by (simp add: st1_def st2_def)
  then have "fst (request_json cfg w endpoint ps kw st2) = fst (request_json cfg w endpoint ps kw st1)"
    by (rule request_json_result)
  then show ?thesis
    using assms same
    by (simp add: make_tmdb_request_def Let_def st1_def [symmetric] st2_def [symmetric])
qed

text \<open>The cache after one call through it.\<close>

lemma cached_call_cache:
  "cache (snd (make_tmdb_request cfg w endpoint ps [] st)) =
     (case map_of (cache st) (endpoint, sort_key fst ps) of
        Some v \<Rightarrow> lru_hit (endpoint, sort_key fst ps) v (cache st)
      | None \<Rightarrow>
          (case fst (make_tmdb_request cfg w endpoint ps [] st) of
             Inl e \<Rightarrow> cache st
           | Inr v \<Rightarrow> lru_store (endpoint, sort_key fst ps) v (cache st)))"
proof -
  let ?st = "st\<lparr>client_log := client_log st @ [(endpoint, ps, [])]\<rparr>"
  have "cache (snd (request_json cfg w endpoint (sort_key fst ps) [] ?st)) = cache st"
    using request_json_cache [of cfg w endpoint "sort_key fst ps" "[]" ?st] by simp
  then show ?thesis
    by (auto simp: make_tmdb_request_def make_tmdb_request_cached_def Let_def
        split: option.splits prod.splits sum.splits)
qed

lemma cached_call_hit:
  assumes "map_of (cache st) (endpoint, sort_key fst ps) = Some v"
  shows "fst (make_tmdb_request cfg w endpoint ps [] st) = Inr v"
    and "transport_log (snd (make_tmdb_request cfg w endpoint ps [] st)) = transport_log st"
  using assms by (simp_all add: make_tmdb_request_def make_tmdb_request_cached_def Let_def)

lemma map_of_behind:
  "k \<notin> fst ` set pre \<Longrightarrow> map_of (pre @ (k, v) # post) k = Some v"
  by (induction pre) auto

lemma prefix_length_bound:
  assumes "distinct (map fst pre)" and "fst ` set pre \<subseteq> T" and "finite T"
  shows "length pre \<le> card T"
proof -
  have "length pre = card (set (map fst pre))"
    using assms(1) by (metis distinct_card length_map)
  also have "\<dots> \<le> card T"
    using assms(2,3) by (simp add: card_mono)
  finally show ?thesis .
qed

lemma lru_store_keeps:
  assumes "distinct (map fst pre)" and "fst ` set pre \<subseteq> T" and "finite T"
    and "card T < maxsize" and "k' \<in> T" and "k' \<notin> fst ` set pre"
  shows "\<exists>pre' post'. lru_store k' v' (pre @ (k, v) # post) = pre' @ (k, v) # post' \<and>
           distinct (map fst pre') \<and> fst ` set pre' \<subseteq> T"
proof -
  define pre' where "pre' = (k', v') # pre"
  have d: "distinct (map fst pre')" using assms(1,6) by (auto simp: pre'_def)
  have s: "fst ` set pre' \<subseteq> T" using assms(2,5) by (auto simp: pre'_def)
  have "length pre' \<le> card T" using d s assms(3) by (rule prefix_length_bound)
  then have less: "length pre' < maxsize" using assms(4) by simp
  then obtain n where n: "maxsize - length pre' = Suc n"
    by (metis Suc_diff_Suc)
  have "lru_store k' v' (pre @ (k, v) # post) = take maxsize (pre' @ (k, v) # post)"
    by (simp add: lru_store_def pre'_def)
  also have "\<dots> = pre' @ (k, v) # take n post"
    using less n by simp
  finally show ?thesis using d s by blast
qed

lemma lru_hit_other_keeps:
  assumes "distinct (map fst pre)" and "fst ` set pre \<subseteq> T" and "k' \<in> T" and "k' \<noteq> k"
  shows "\<exists>pre' post'. lru_hit k' v' (pre @ (k, v) # post) = pre' @ (k, v) # post' \<and>
           distinct (map fst pre') \<and> fst ` set pre' \<subseteq> T"
proof -
  define pre' where "pre' = (k', v') # filter (\<lambda>(a, b). a \<noteq> k') pre"
  have d: "distinct (map fst pre')"
    using assms(1) by (auto simp: pre'_def distinct_map_filter)
  have s: "fst ` set pre' \<subseteq> T" using assms(2,3) by (auto simp: pre'_def)
  have "lru_hit k' v' (pre @ (k, v) # post)
          = pre' @ (k, v) # filter (\<lambda>(a, b). a \<noteq> k') post"
    using assms(4) by (simp add: lru_hit_def pre'_def)
  then show ?thesis using d s by blast
qed

lemma lru_hit_same_keeps:
  "\<exists>pre' post'. lru_hit k v c = pre' @ (k, v) # post' \<and>
     distinct (map fst pre') \<and> fst ` set pre' \<subseteq> T"
proof -
  have "lru_hit k v c = [] @ (k, v) # filter (\<lambda>(a, b). a \<noteq> k) c"
    by (simp add: lru_hit_def)
  then show ?thesis by (metis distinct.simps(1) empty_subsetI image_empty list.map(1) list.set(1))
qed

lemma call_keeps_entry:
  assumes c: "cache st = pre @ (k, v) # post"
    and d: "distinct (map fst pre)" and s: "fst ` set pre \<subseteq> T"
    and T: "finite T" "card T < maxsize" "k \<notin> T"
    and call: "kw \<noteq> [] \<or> (endpoint, sort_key fst ps) \<in> insert k T"
  shows "\<exists>pre' post'. cache (snd (make_tmdb_request cfg w endpoint ps kw st))
             = pre' @ (k, v) # post' \<and>
           distinct (map fst pre') \<and> fst ` set pre' \<subseteq> T"
proof (cases "kw = []")
  case False
  then have "cache (snd (make_tmdb_request cfg w endpoint ps kw st)) = cache st"
    using bypass_cache [of kw cfg w endpoint ps st] by simp
  then show ?thesis using c d s by auto
next
  case True
  define k' where "k' = (endpoint, sort_key fst ps)"
  have in_T: "k' \<in> insert k T" using call True by (simp add: k'_def)
  have k_fresh: "k \<notin> fst ` set pre" using s T(3) by auto
  have at_k: "map_of (cache st) k = Some v"
    unfolding c using k_fresh by (rule map_of_behind)
  show ?thesis
  proof (cases "map_of (cache st) k'")
    case (Some v')
    then have after: "cache (snd (make_tmdb_request cfg w endpoint ps kw st))
                        = lru_hit k' v' (cache st)"
      using cached_call_cache [of cfg w endpoint ps st] True by (simp add: k'_def)
    show ?thesis
    proof (cases "k' = k")
      case True
      then have "v' = v" using Some at_k by simp
      then show ?thesis using after True lru_hit_same_keeps [of k v "cache st" T] by simp
    next
      case False
      then have "k' \<in> T" using in_T by simp
      then show ?thesis
        using after c lru_hit_other_keeps [OF d s _ False, of v' v post] by simp
    qed
  next
    case None
    then have not_k: "k' \<noteq> k" using at_k by auto
    then have in_T': "k' \<in> T" using in_T by simp
    have "k' \<notin> fst ` set (cache st)"
      using None by (simp add: map_of_eq_None_iff)
    then have fresh: "k' \<notin> fst ` set pre" by (auto simp: c)
    show ?thesis
    proof (cases "fst (make_tmdb_request cfg w endpoint ps [] st)")
      case (Inl e)
      then have "cache (snd (make_tmdb_request cfg w endpoint ps kw st)) = cache st"
        using cached_call_cache [of cfg w endpoint ps st] None True by (simp add: k'_def)
      then show ?thesis using c d s by auto
    next
      case (Inr v')
      then have "cache (snd (make_tmdb_request cfg w endpoint ps kw st))
                   = lru_store k' v' (cache st)"
        using cached_call_cache [of cfg w endpoint ps st] None True by (simp add: k'_def)
      then show ?thesis
        using c lru_store_keeps [OF d s T(1,2) in_T' fresh, of v' k v post] by simp
    qed
  qed
qed

lemma calls_keep_entry:
  assumes "cache st = pre @ (k, v) # post"
    and "distinct (map fst pre)" and "fst ` set pre \<subseteq> T"
    and "finite T" and "card T < maxsize" and "k \<notin> T"
    and "\<forall>call\<in>set calls. cacheable call \<longrightarrow> request_key call \<in> insert k T"
  shows "\<exists>pre' post'. cache (make_requests cfg w calls st) = pre' @ (k, v) # post' \<and>
           distinct (map fst pre') \<and> fst ` set pre' \<subseteq> T"
  using assms
proof (induction calls arbitrary: st pre post)
  case Nil
  then show ?case by auto
next
  case (Cons call calls)
  obtain endpoint ps kw where call: "call = (endpoint, ps, kw)" by (cases call) auto
  have this_call: "kw \<noteq> [] \<or> (endpoint, sort_key fst ps) \<in> insert k T"
    using Cons.prems(7) call by auto
  obtain pre' post' where after:
      "cache (snd (make_tmdb_request cfg w endpoint ps kw st)) = pre' @ (k, v) # post'"
      "distinct (map fst pre')" "fst ` set pre' \<subseteq> T"
    using call_keeps_entry [OF Cons.prems(1-6) this_call, of cfg w] by blast
  have rest: "\<forall>call\<in>set calls. cacheable call \<longrightarrow> request_key call \<in> insert k T"
    using Cons.prems(7) by simp
  show ?case
    using Cons.IH [OF after Cons.prems(4-6) rest] by (simp add: call)
qed

lemma first_call_in_front:
  assumes "make_tmdb_request cfg w endpoint ps [] st = (Inr v, st1)"
  shows "\<exists>post. cache st1 = ((endpoint, sort_key fst ps), v) # post"
proof -
  have "0 < maxsize" by (simp add: maxsize_def)
  then obtain n where n: "maxsize = Suc n" by (cases maxsize) auto
  have "cache st1 = cache (snd (make_tmdb_request cfg w endpoint ps [] st))"
    and "fst (make_tmdb_request cfg w endpoint ps [] st) = Inr v"
    using assms by simp_all
  then show ?thesis
    using cached_call_cache [of cfg w endpoint ps st] cached_call_hit(1) [of st endpoint ps _ cfg w]
    by (auto simp: lru_hit_def lru_store_def n split: option.splits)
qed

lemma cache_stays_bounded:
  assumes "length (cache st) \<le> maxsize"
  shows "length (cache (snd (make_tmdb_request cfg w endpoint ps kw st))) \<le> maxsize"
proof (cases "kw = []")
  case False
  then show ?thesis using assms bypass_cache [of kw cfg w endpoint ps st] by simp
next
  case True
  show ?thesis
  proof (cases "map_of (cache st) (endpoint, sort_key fst ps)")
    case None
    then show ?thesis
      using assms cached_call_cache [of cfg w endpoint ps st] True
      by (auto simp: lru_store_def split: sum.splits)
  next
    case (Some v)
    then have "((endpoint, sort_key fst ps), v) \<in> set (cache st)" by (rule map_of_SomeD)
    then have "length (filter (\<lambda>(a, b). a \<noteq> (endpoint, sort_key fst ps)) (cache st))
                 < length (cache st)"
      by (rule length_filter_less) simp
    then show ?thesis
      using assms Some cached_call_cache [of cfg w endpoint ps st] True
      by (simp add: lru_hit_def)
  qed
qed

text \<open>
  C5, as the code has it. The cache is \<open>lru_cache(maxsize=1024)\<close>. Take two calls with
  the same endpoint and the same sorted parameter pairs and no further keyword arguments,
  the first of which returned a value. If the calls made in between use fewer than 1024
  other cache keys, the second returns the value of the first and makes no HTTP request.
  The cache never holds more than 1024 entries: the least recently used one is dropped, so
  an entry does not live as long as the process. A call with further keyword arguments
  leaves the cache as it is and its result does not depend on the cache.
\<close>

theorem memo_within_capacity:
  "(\<forall>v st1. make_tmdb_request cfg w endpoint ps [] st = (Inr v, st1) \<and>
            sort_key fst ps' = sort_key fst ps \<and>
            card (request_key ` {call \<in> set calls. cacheable call}
                    - {(endpoint, sort_key fst ps)}) < maxsize \<longrightarrow>
      fst (make_tmdb_request cfg w endpoint ps' [] (make_requests cfg w calls st1)) = Inr v \<and>
      transport_log (snd (make_tmdb_request cfg w endpoint ps' [] (make_requests cfg w calls st1)))
        = transport_log (make_requests cfg w calls st1)) \<and>
   (length (cache st) \<le> maxsize \<longrightarrow>
      length (cache (snd (make_tmdb_request cfg w endpoint ps kw st))) \<le> maxsize) \<and>
   (kw \<noteq> [] \<longrightarrow>
      cache (snd (make_tmdb_request cfg w endpoint ps kw st)) = cache st \<and>
      (\<forall>c. fst (make_tmdb_request cfg w endpoint ps kw (st\<lparr>cache := c\<rparr>))
             = fst (make_tmdb_request cfg w endpoint ps kw st)))"
proof (intro conjI allI impI)
  fix v st1
  assume a: "make_tmdb_request cfg w endpoint ps [] st = (Inr v, st1) \<and>
            sort_key fst ps' = sort_key fst ps \<and>
            card (request_key ` {call \<in> set calls. cacheable call}
                    - {(endpoint, sort_key fst ps)}) < maxsize"
  define k where "k = (endpoint, sort_key fst ps)"
  define T where "T = request_key ` {call \<in> set calls. cacheable call} - {k}"
  obtain post where front: "cache st1 = [] @ (k, v) # post"
    using a first_call_in_front [of cfg w endpoint ps st v st1] by (auto simp: k_def)
  have fin: "finite T" by (simp add: T_def)
  have small: "card T < maxsize" using a by (simp add: T_def k_def)
  have notin: "k \<notin> T" by (simp add: T_def)
  have calls: "\<forall>call\<in>set calls. cacheable call \<longrightarrow> request_key call \<in> insert k T"
    by (auto simp: T_def)
  obtain pre' post' where kept:
      "cache (make_requests cfg w calls st1) = pre' @ (k, v) # post'"
      "fst ` set pre' \<subseteq> T"
    using calls_keep_entry [OF front _ _ fin small notin calls, of cfg w] by auto
  have "k \<notin> fst ` set pre'" using kept(2) notin by auto
  then have "map_of (pre' @ (k, v) # post') k = Some v" by (rule map_of_behind)
  moreover have "(endpoint, sort_key fst ps') = k" using a by (simp add: k_def)
  ultimately have
    "map_of (cache (make_requests cfg w calls st1)) (endpoint, sort_key fst ps') = Some v"
    by (simp only: kept(1))
  then show "fst (make_tmdb_request cfg w endpoint ps' [] (make_requests cfg w calls st1)) = Inr v"
    and "transport_log (snd (make_tmdb_request cfg w endpoint ps' [] (make_requests cfg w calls st1)))
        = transport_log (make_requests cfg w calls st1)"
    by (rule cached_call_hit)+
next
  assume "length (cache st) \<le> maxsize"
  then show "length (cache (snd (make_tmdb_request cfg w endpoint ps kw st))) \<le> maxsize"
    by (rule cache_stays_bounded)
next
  assume "kw \<noteq> []"
  then show "cache (snd (make_tmdb_request cfg w endpoint ps kw st)) = cache st"
    using bypass_cache [of kw cfg w endpoint ps st] by simp
next
  fix c
  assume "kw \<noteq> []"
  then show "fst (make_tmdb_request cfg w endpoint ps kw (st\<lparr>cache := c\<rparr>))
             = fst (make_tmdb_request cfg w endpoint ps kw st)"
    using bypass_cache [of kw cfg w endpoint ps st c] by simp
qed

lemma counting_miss:
  assumes "(endpoint, []) \<notin> fst ` set (cache st)"
  shows "fst (make_tmdb_request cfg counting_world endpoint [] [] st)
           = Inr (JInt (int (length (transport_log st)))) \<and>
         map fst (cache (snd (make_tmdb_request cfg counting_world endpoint [] [] st)))
           = take maxsize ((endpoint, []) # map fst (cache st)) \<and>
         length (transport_log (snd (make_tmdb_request cfg counting_world endpoint [] [] st)))
           = Suc (length (transport_log st))"
proof -
  have "map_of (cache st) (endpoint, []) = None"
    using assms by (simp add: map_of_eq_None_iff)
  then show ?thesis
    by (simp add: make_tmdb_request_def make_tmdb_request_cached_def request_json_def
        session_get_def raise_for_status_def counting_world_def ok_response_def lru_store_def
        Let_def flip: take_map)
qed

lemma take_append_take: "take m (xs @ take m ys) = take m (xs @ ys)"
  by (simp add: min_def)

lemma filler_fills:
  assumes "distinct eps" and "\<forall>e\<in>set eps. (e, []) \<notin> fst ` set (cache st)"
    and "length (cache st) \<le> maxsize"
  shows "map fst (cache (make_requests cfg counting_world (map (\<lambda>e. (e, [], [])) eps) st))
           = take maxsize (rev (map (\<lambda>e. (e, [])) eps) @ map fst (cache st)) \<and>
         length (transport_log (make_requests cfg counting_world (map (\<lambda>e. (e, [], [])) eps) st))
           = length (transport_log st) + length eps"
  using assms
proof (induction eps arbitrary: st)
  case Nil
  then show ?case by simp
next
  case (Cons e eps)
  define st' where "st' = snd (make_tmdb_request cfg counting_world e [] [] st)"
  have fresh: "(e, []) \<notin> fst ` set (cache st)" using Cons.prems(2) by simp
  have keys: "map fst (cache st') = take maxsize ((e, []) # map fst (cache st))"
    and log: "length (transport_log st') = Suc (length (transport_log st))"
    using counting_miss [OF fresh, of cfg] by (simp_all add: st'_def)
  have "set (map fst (cache st')) \<subseteq> set ((e, []) # map fst (cache st))"
    unfolding keys by (rule set_take_subset)
  then have sub: "fst ` set (cache st') \<subseteq> insert (e, []) (fst ` set (cache st))" by simp
  have d: "distinct eps" and ne: "e \<notin> set eps" using Cons.prems(1) by simp_all
  have bounded: "length (cache st') \<le> maxsize"
    unfolding st'_def using Cons.prems(3) by (rule cache_stays_bounded)
  have rest: "\<forall>e'\<in>set eps. (e', []) \<notin> fst ` set (cache st')"
  proof
    fix e' assume e': "e' \<in> set eps"
    then have "(e', []) \<notin> fst ` set (cache st)" using Cons.prems(2) by simp
    moreover have "e' \<noteq> e" using e' ne by auto
    ultimately show "(e', []) \<notin> fst ` set (cache st')" using sub by auto
  qed
  have ih: "map fst (cache (make_requests cfg counting_world (map (\<lambda>e. (e, [], [])) eps) st'))
              = take maxsize (rev (map (\<lambda>e. (e, [])) eps) @ map fst (cache st')) \<and>
            length (transport_log (make_requests cfg counting_world (map (\<lambda>e. (e, [], [])) eps) st'))
              = length (transport_log st') + length eps"
    using Cons.IH [OF d rest bounded] .
  have "take maxsize (rev (map (\<lambda>e. (e, [])) eps) @ map fst (cache st'))
          = take maxsize (rev (map (\<lambda>e. (e, [])) eps) @ (e, []) # map fst (cache st))"
    unfolding keys by (rule take_append_take)
  then show ?case
    using ih log by (simp add: st'_def)
qed

lemma filler_calls_eq:
  "filler_calls = map (\<lambda>e. (e, [], [])) (map (\<lambda>i. replicate (Suc i) CHR ''x'') [0..<maxsize])"
  by (simp add: filler_calls_def)

lemma filler_distinct: "distinct (map (\<lambda>i. replicate (Suc i) CHR ''x'') [0..<maxsize])"
proof -
  have "inj_on (\<lambda>i. replicate (Suc i) CHR ''x'') (set [0..<maxsize])"
    by (rule inj_onI) (metis length_replicate nat.inject)
  then show ?thesis by (simp add: distinct_map)
qed

lemma after_first_state:
  "cache after_first = [((''movie/949'', []), JInt 0)] \<and> length (transport_log after_first) = 1"
  by (simp add: after_first_def client_defs service_defs item_defs)

lemma after_filler_state:
  "(''movie/949'', []) \<notin> fst ` set (cache after_filler) \<and>
   length (transport_log after_filler) = Suc maxsize"
proof -
  define eps where "eps = map (\<lambda>i. replicate (Suc i) CHR ''x'') [0..<maxsize]"
  have len: "length eps = maxsize" by (simp add: eps_def)
  have d: "distinct eps" unfolding eps_def by (rule filler_distinct)
  have other: "\<forall>e\<in>set eps. e \<noteq> ''movie/949''" by (auto simp: eps_def)
  then have fresh: "\<forall>e\<in>set eps. (e, []) \<notin> fst ` set (cache after_first)"
    by (simp add: after_first_state)
  have run: "after_filler = make_requests cfg0 counting_world (map (\<lambda>e. (e, [], [])) eps) after_first"
    by (simp add: after_filler_def filler_calls_eq eps_def)
  have "map fst (cache after_filler)
          = take maxsize (rev (map (\<lambda>e. (e, [])) eps) @ map fst (cache after_first))"
    and log: "length (transport_log after_filler) = length (transport_log after_first) + length eps"
    using filler_fills [OF d fresh, of cfg0] by (simp_all add: run after_first_state maxsize_def)
  then have "map fst (cache after_filler) = rev (map (\<lambda>e. (e, [])) eps)"
    using len by simp
  then have "set (map fst (cache after_filler)) = (\<lambda>e. (e, [])) ` set eps"
    by simp
  then have "(''movie/949'', []) \<notin> fst ` set (cache after_filler)"
    using other by auto
  then show ?thesis using log len by (simp add: after_first_state)
qed

text \<open>
  The claim C5 fails where the cache is full: after a lookup and 1024 other lookups, the
  first lookup is made again over HTTP and gives another answer.
\<close>

theorem eviction_counterexample:
  "fst (make_tmdb_request cfg0 counting_world ''movie/949'' [] [] init_state) = Inr (JInt 0) \<and>
   fst (make_tmdb_request cfg0 counting_world ''movie/949'' [] [] after_filler)
     = Inr (JInt 1025) \<and>
   length (transport_log (snd (make_tmdb_request cfg0 counting_world ''movie/949'' [] []
                                 after_filler)))
     = Suc (length (transport_log after_filler))"
proof -
  have first: "fst (make_tmdb_request cfg0 counting_world ''movie/949'' [] [] init_state)
                 = Inr (JInt 0)"
    by (simp add: client_defs service_defs item_defs)
  have fresh: "(''movie/949'', []) \<notin> fst ` set (cache after_filler)"
    and log: "length (transport_log after_filler) = Suc maxsize"
    using after_filler_state by simp_all
  show ?thesis
    using first counting_miss [OF fresh, of cfg0] log by (simp add: maxsize_def)
qed

theorem memo_within_capacity_witness:
  "fst (make_tmdb_request cfg0 counting_world ''movie/949'' [] [] init_state) = Inr (JInt 0) \<and>
   fst (make_tmdb_request cfg0 counting_world ''movie/949'' [] []
          (make_requests cfg0 counting_world few_calls after_first)) = Inr (JInt 0) \<and>
   transport_log (snd (make_tmdb_request cfg0 counting_world ''movie/949'' [] []
                         (make_requests cfg0 counting_world few_calls after_first)))
     = transport_log (make_requests cfg0 counting_world few_calls after_first) \<and>
   length (cache (snd (make_tmdb_request cfg0 counting_world ''movie/949'' [] [] init_state)))
     \<le> maxsize \<and>
   cache (snd (make_tmdb_request cfg0 counting_world ''search/movie'' [(''query'', PStr ''Heat'')]
                 [(''timeout'', ''5'')] after_first))
     = cache after_first"
proof -
  have first: "make_tmdb_request cfg0 counting_world ''movie/949'' [] [] init_state
                 = (Inr (JInt 0), after_first)"
    by (simp add: prod_eq_iff after_first_def client_defs service_defs item_defs)
  have "card (request_key ` {call \<in> set few_calls. cacheable call}
                - {(''movie/949'', sort_key fst [])})
          \<le> card (request_key ` {call \<in> set few_calls. cacheable call})"
    by (rule card_Diff1_le)
  also have "\<dots> \<le> card {call \<in> set few_calls. cacheable call}"
    by (rule card_image_le) simp
  also have "\<dots> \<le> card (set few_calls)"
    by (rule card_mono) auto
  also have "\<dots> \<le> length few_calls"
    by (rule card_length)
  also have "\<dots> < maxsize"
    by (simp add: few_calls_def maxsize_def)
  finally have few: "card (request_key ` {call \<in> set few_calls. cacheable call}
                     - {(''movie/949'', sort_key fst [])}) < maxsize" .
  have bounded: "length (cache init_state) \<le> maxsize"
    by (simp add: init_state_def)
  have kw: "[(''timeout'', ''5'')] \<noteq> []" by simp
  show ?thesis
    using first few bounded kw
      memo_within_capacity [of cfg0 counting_world "''movie/949''" "[]" init_state "[]" few_calls "[]"]
      memo_within_capacity [of cfg0 counting_world "''search/movie''" "[(''query'', PStr ''Heat'')]"
         after_first "[]" "[]" "[(''timeout'', ''5'')]"]
    by simp
qed


end
